theory Spec2Isabelle
  imports Complex_Main
begin

section \<open>JavaScript numbers\<close>

text \<open>
  The program computes with JavaScript numbers. A finite number is modelled by the
  rational it denotes. The result of an operation on finite numbers is its exact value,
  unless that value is so large that a double rounds it to an infinity; the rounding
  error inside the range of the doubles is left out, and \<open>-0\<close> is identified with
  \<open>0\<close>. The special values are kept: \<open>NaN\<close> (also what \<open>undefined\<close> becomes in
  arithmetic) and the two infinities, with the IEEE rules for them.
\<close>

datatype jsnum = Num rat | PInf | NInf | NaN

text \<open>
  The largest double is \<open>2^1024 - 2^971\<close>. Rounding to nearest gives an infinity from
  half a unit in the last place above it, that is from \<open>2^1024 - 2^970\<close> on.
\<close>

definition overflow_bound :: rat where
  "overflow_bound = 2 ^ 1024 - 2 ^ 970"

definition to_double_range :: "rat \<Rightarrow> jsnum" where
  "to_double_range r =
     (if overflow_bound \<le> r then PInf else if r \<le> - overflow_bound then NInf else Num r)"

fun js_neg :: "jsnum \<Rightarrow> jsnum" where
  "js_neg (Num a) = Num (- a)"
| "js_neg PInf = NInf"
| "js_neg NInf = PInf"
| "js_neg NaN = NaN"

fun js_add :: "jsnum \<Rightarrow> jsnum \<Rightarrow> jsnum" where
  "js_add NaN _ = NaN"
| "js_add _ NaN = NaN"
| "js_add (Num a) (Num b) = to_double_range (a + b)"
| "js_add PInf NInf = NaN"
| "js_add NInf PInf = NaN"
| "js_add PInf _ = PInf"
| "js_add _ PInf = PInf"
| "js_add NInf _ = NInf"
| "js_add _ NInf = NInf"

definition js_sub :: "jsnum \<Rightarrow> jsnum \<Rightarrow> jsnum" where
  "js_sub x y = js_add x (js_neg y)"

text \<open>The sign of a number other than \<open>NaN\<close>: \<open>-1\<close>, \<open>0\<close> or \<open>1\<close>.\<close>

fun js_sign :: "jsnum \<Rightarrow> int" where
  "js_sign (Num a) = (if a < 0 then - 1 else if a = 0 then 0 else 1)"
| "js_sign PInf = 1"
| "js_sign NInf = - 1"
| "js_sign NaN = 0"

definition signed_inf :: "int \<Rightarrow> jsnum" where
  "signed_inf s = (if s = 0 then NaN else if 0 < s then PInf else NInf)"

fun js_mul :: "jsnum \<Rightarrow> jsnum \<Rightarrow> jsnum" where
  "js_mul NaN _ = NaN"
| "js_mul _ NaN = NaN"
| "js_mul (Num a) (Num b) = to_double_range (a * b)"
| "js_mul x y = signed_inf (js_sign x * js_sign y)"

text \<open>
  Division: a finite nonzero number over zero is an infinity, zero over zero and an
  infinity over an infinity are \<open>NaN\<close>, a finite number over an infinity is zero.
\<close>

fun js_div :: "jsnum \<Rightarrow> jsnum \<Rightarrow> jsnum" where
  "js_div NaN _ = NaN"
| "js_div _ NaN = NaN"
| "js_div (Num a) (Num b) =
     (if b = 0 then signed_inf (js_sign (Num a)) else to_double_range (a / b))"
| "js_div (Num a) _ = Num 0"
| "js_div x (Num b) = signed_inf (js_sign x * (if b < 0 then - 1 else 1))"
| "js_div _ _ = NaN"

text \<open>The comparisons \<open><\<close>, \<open>>=\<close> and \<open>===\<close>: each is false when an operand is \<open>NaN\<close>.\<close>

fun js_lt :: "jsnum \<Rightarrow> jsnum \<Rightarrow> bool" where
  "js_lt NaN _ = False"
| "js_lt _ NaN = False"
| "js_lt (Num a) (Num b) = (a < b)"
| "js_lt NInf NInf = False"
| "js_lt NInf _ = True"
| "js_lt _ NInf = False"
| "js_lt PInf _ = False"
| "js_lt _ PInf = True"

fun js_ge :: "jsnum \<Rightarrow> jsnum \<Rightarrow> bool" where
  "js_ge NaN _ = False"
| "js_ge _ NaN = False"
| "js_ge x y = (\<not> js_lt x y)"

fun js_eq :: "jsnum \<Rightarrow> jsnum \<Rightarrow> bool" where
  "js_eq NaN _ = False"
| "js_eq _ NaN = False"
| "js_eq x y = (x = y)"

text \<open>\<open>Math.floor\<close>, \<open>Math.round\<close> (to the nearest integer, a tie upwards) and
  \<open>Number.isInteger\<close>.\<close>

fun js_floor :: "jsnum \<Rightarrow> jsnum" where
  "js_floor (Num a) = Num (of_int \<lfloor>a\<rfloor>)"
| "js_floor x = x"

fun js_round :: "jsnum \<Rightarrow> jsnum" where
  "js_round (Num a) = Num (of_int \<lfloor>a + 1 / 2\<rfloor>)"
| "js_round x = x"

fun isInteger :: "jsnum \<Rightarrow> bool" where
  "isInteger (Num a) = (a = of_int \<lfloor>a\<rfloor>)"
| "isInteger _ = False"

section \<open>Data model\<close>

text \<open>
  Modelled from the spec: the type declarations of \<open>../types\<close> (\<open>Operator\<close>,
  \<open>DifficultyLevel\<close>, \<open>QuizConfig\<close>, \<open>MathProblem\<close>) are not among the sources.
  The operators and difficulty levels are the string literals the code compares with;
  the fields of the records are the ones the code reads and writes.
\<close>

datatype Operator = addition | subtraction | multiplication | division

datatype DifficultyLevel = easy | medium | hard | custom

record preset =
  preset_min :: int
  preset_max :: int
  preset_operandCount :: int

text \<open>\<open>DIFFICULTY_PRESETS\<close>: a table keyed by the levels other than \<open>custom\<close>.\<close>

fun DIFFICULTY_PRESETS :: "DifficultyLevel \<Rightarrow> preset option" where
  "DIFFICULTY_PRESETS easy = Some \<lparr>preset_min = 1, preset_max = 10, preset_operandCount = 2\<rparr>"
| "DIFFICULTY_PRESETS medium = Some \<lparr>preset_min = 10, preset_max = 50, preset_operandCount = 2\<rparr>"
| "DIFFICULTY_PRESETS hard = Some \<lparr>preset_min = 10, preset_max = 100, preset_operandCount = 3\<rparr>"
| "DIFFICULTY_PRESETS custom = None"

text \<open>\<open>getOperatorSymbol\<close>; the multiplication and division signs are U+00D7 and
  U+00F7, written here as their UTF-8 bytes.\<close>

fun getOperatorSymbol :: "Operator \<Rightarrow> string" where
  "getOperatorSymbol addition = ''+''"
| "getOperatorSymbol subtraction = ''-''"
| "getOperatorSymbol multiplication = [CHR 0xC3, CHR 0x97]"
| "getOperatorSymbol division = [CHR 0xC3, CHR 0xB7]"

section \<open>The expression evaluator\<close>

record eval_result =
  result :: jsnum
  hasNegativeIntermediate :: bool

text \<open>
  Reading an array past its end gives \<open>undefined\<close>. Every use the evaluator makes of
  such a value (arithmetic, \<open>!== 0\<close>, \<open>< 0\<close>) treats it as it treats \<open>NaN\<close>, so
  the read is modelled as \<open>NaN\<close>. An operator slot can hold \<open>undefined\<close> too (the
  generator reads the configured operators by index), so a slot is an
  \<open>Operator option\<close> with \<open>None\<close> for \<open>undefined\<close>.
\<close>

definition num_at :: "jsnum list \<Rightarrow> nat \<Rightarrow> jsnum" where
  "num_at xs i = (if i < length xs then xs ! i else NaN)"

definition op_at :: "Operator option list \<Rightarrow> nat \<Rightarrow> Operator option" where
  "op_at ops i = (if i < length ops then ops ! i else None)"

text \<open>Lines 35-37: the value of one multiply/divide reduction.\<close>

definition md_value :: "Operator option \<Rightarrow> jsnum \<Rightarrow> jsnum \<Rightarrow> jsnum" where
  "md_value op n1 n2 =
     (if op = Some multiplication then js_mul n1 n2
      else if \<not> js_eq n2 (Num 0) then js_div n1 n2 else Num 0)"

text \<open>
  Pass 1 (lines 30-43). \<open>splice(i, 2, res)\<close> and \<open>splice(i, 1)\<close> are written with
  \<open>take\<close> and \<open>drop\<close>, which clamp at the end of the list as \<open>splice\<close> does.
  After a reduction the index is decremented and then incremented by the loop, so the
  scan goes on at the same index.
\<close>

function md_pass :: "nat \<Rightarrow> jsnum list \<Rightarrow> Operator option list
    \<Rightarrow> jsnum list \<times> Operator option list" where
  "md_pass i currentNumbers currentOps =
     (if i < length currentOps then
        (if op_at currentOps i = Some multiplication \<or> op_at currentOps i = Some division then
           md_pass i
             (take i currentNumbers @
                md_value (op_at currentOps i) (num_at currentNumbers i) (num_at currentNumbers (i + 1)) #
                drop (i + 2) currentNumbers)
             (take i currentOps @ drop (i + 1) currentOps)
         else md_pass (i + 1) currentNumbers currentOps)
      else (currentNumbers, currentOps))"
  by pat_completeness auto
termination
  by (relation "measure (\<lambda>(i, ns, ops). length ops - i)") auto

declare md_pass.simps [simp del]

text \<open>Lines 53-57: one step of the add/subtract pass; any other slot leaves the
  running result as it is.\<close>

definition as_value :: "Operator option \<Rightarrow> jsnum \<Rightarrow> jsnum \<Rightarrow> jsnum" where
  "as_value op r n2 =
     (if op = Some addition then js_add r n2
      else if op = Some subtraction then js_sub r n2 else r)"

text \<open>Pass 2 (lines 50-62), from index \<open>i\<close> with the running result and the flag.\<close>

function as_pass :: "nat \<Rightarrow> jsnum list \<Rightarrow> Operator option list \<Rightarrow> jsnum \<Rightarrow> bool
    \<Rightarrow> jsnum \<times> bool" where
  "as_pass i currentNumbers currentOps r neg =
     (if i < length currentOps then
        as_pass (i + 1) currentNumbers currentOps
          (as_value (op_at currentOps i) r (num_at currentNumbers (i + 1)))
          (if js_lt (as_value (op_at currentOps i) r (num_at currentNumbers (i + 1))) (Num 0)
           then True else neg)
      else (r, neg))"
  by pat_completeness auto
termination
  by (relation "measure (\<lambda>(i, ns, ops, r, neg). length ops - i)") auto

declare as_pass.simps [simp del]

text \<open>\<open>Math.round(result * 100) / 100\<close>.\<close>

definition round2 :: "jsnum \<Rightarrow> jsnum" where
  "round2 x = js_div (js_round (js_mul x (Num 100))) (Num 100)"

definition evaluateExpressionExtended :: "jsnum list \<Rightarrow> Operator option list \<Rightarrow> eval_result" where
  "evaluateExpressionExtended numbers operators =
     (case md_pass 0 numbers operators of
        (currentNumbers, currentOps) \<Rightarrow>
          (case as_pass 0 currentNumbers currentOps (num_at currentNumbers 0)
                  (js_lt (num_at currentNumbers 0) (Num 0)) of
             (r, neg) \<Rightarrow> \<lparr>result = round2 r, hasNegativeIntermediate = neg\<rparr>))"


text \<open>The running result when pass 2 ends, before line 65 rounds it.\<close>

definition unrounded_result :: "jsnum list \<Rightarrow> Operator option list \<Rightarrow> jsnum" where
  "unrounded_result numbers operators =
     (case md_pass 0 numbers operators of
        (currentNumbers, currentOps) \<Rightarrow>
          fst (as_pass 0 currentNumbers currentOps (num_at currentNumbers 0)
                 (js_lt (num_at currentNumbers 0) (Num 0))))"

text \<open>
  The reductions of pass 1 that are divisions, in the order the pass makes them: the same
  scan as \<open>md_pass\<close>, collecting the value \<open>res\<close> of each division slot.
\<close>

function division_quotients :: "nat \<Rightarrow> jsnum list \<Rightarrow> Operator option list \<Rightarrow> jsnum list" where
  "division_quotients i currentNumbers currentOps =
     (if i < length currentOps then
        (if op_at currentOps i = Some multiplication \<or> op_at currentOps i = Some division then
           (if op_at currentOps i = Some division
            then [md_value (op_at currentOps i) (num_at currentNumbers i) (num_at currentNumbers (i + 1))]
            else []) @
           division_quotients i
             (take i currentNumbers @
                md_value (op_at currentOps i) (num_at currentNumbers i) (num_at currentNumbers (i + 1)) #
                drop (i + 2) currentNumbers)
             (take i currentOps @ drop (i + 1) currentOps)
         else division_quotients (i + 1) currentNumbers currentOps)
      else [])"
  by pat_completeness auto
termination
  by (relation "measure (\<lambda>(i, ns, ops). length ops - i)") auto

declare division_quotients.simps [simp del]

text \<open>
  The running result of pass 2 after \<open>k\<close> add/subtract steps: the first remaining
  operand for \<open>k = 0\<close>, and one more step of the loop for each further \<open>k\<close>.
\<close>

primrec running_result :: "jsnum list \<Rightarrow> Operator option list \<Rightarrow> nat \<Rightarrow> jsnum" where
  "running_result ns ops 0 = num_at ns 0"
| "running_result ns ops (Suc k) =
     as_value (op_at ops k) (running_result ns ops k) (num_at ns (k + 1))"

subsection \<open>A reference evaluator with the standard precedence\<close>

text \<open>
  The reference the evaluator is compared with: the operand/operator sequence is parsed
  into a tree in which multiplication and division bind tighter than addition and
  subtraction and operators of one level associate to the left, and the tree is
  evaluated bottom-up. Division by zero has the value zero, as section 4.1 of the
  specification defines it.
\<close>

datatype expr = Lit jsnum | Bin Operator expr expr

fun is_md :: "Operator \<Rightarrow> bool" where
  "is_md multiplication = True"
| "is_md division = True"
| "is_md _ = False"



text \<open>\<open>attach lhs t\<close> closes the product \<open>t\<close>: it becomes the right operand of the
  pending additive operator, if there is one.\<close>

fun attach :: "(expr \<times> Operator) option \<Rightarrow> expr \<Rightarrow> expr" where
  "attach None t = t"
| "attach (Some (s, op)) t = Bin op s t"

text \<open>\<open>parse_from lhs t ops ns\<close>: \<open>lhs\<close> is the sum read so far with its pending
  additive operator, \<open>t\<close> the product being read, \<open>ops\<close> and \<open>ns\<close> what is left
  of the sequence.\<close>

fun parse_from :: "(expr \<times> Operator) option \<Rightarrow> expr \<Rightarrow> Operator list \<Rightarrow> jsnum list \<Rightarrow> expr" where
  "parse_from lhs t [] ns = attach lhs t"
| "parse_from lhs t (op # ops) [] = attach lhs t"
| "parse_from lhs t (op # ops) (n # ns) =
     (if is_md op then parse_from lhs (Bin op t (Lit n)) ops ns
      else parse_from (Some (attach lhs t, op)) (Lit n) ops ns)"

fun standard_parse :: "jsnum list \<Rightarrow> Operator list \<Rightarrow> expr" where
  "standard_parse [] ops = Lit NaN"
| "standard_parse (n # ns) ops = parse_from None (Lit n) ops ns"


text \<open>The operands and operators of a tree, read from left to right.\<close>

fun operands_of :: "expr \<Rightarrow> jsnum list" where
  "operands_of (Lit x) = [x]"
| "operands_of (Bin op l r) = operands_of l @ operands_of r"

fun operators_of :: "expr \<Rightarrow> Operator list" where
  "operators_of (Lit x) = []"
| "operators_of (Bin op l r) = operators_of l @ op # operators_of r"

text \<open>A product: left-nested multiplications and divisions of operands.\<close>

fun is_product :: "expr \<Rightarrow> bool" where
  "is_product (Lit x) = True"
| "is_product (Bin op l (Lit x)) = (is_md op \<and> is_product l)"
| "is_product (Bin op l r) = False"

text \<open>A tree of the standard precedence: a left-nested sum of products.\<close>

fun is_standard :: "expr \<Rightarrow> bool" where
  "is_standard (Lit x) = True"
| "is_standard (Bin op l r) =
     (if is_md op then is_product (Bin op l r) else is_standard l \<and> is_product r)"

text \<open>The state of the parser after it has read the sequence of a tree: the sum read
  so far with its pending additive operator, and the last product.\<close>

fun parser_state :: "expr \<Rightarrow> (expr \<times> Operator) option \<times> expr" where
  "parser_state (Lit x) = (None, Lit x)"
| "parser_state (Bin op l r) = (if is_md op then (None, Bin op l r) else (Some (l, op), r))"

section \<open>The problem generator\<close>

text \<open>
  Modelled from the spec: \<open>QuizConfig\<close> and \<open>MathProblem\<close> (declared in
  \<open>../types\<close>, not among the sources), with the fields the generator reads and the
  fields of the object it returns. \<open>min\<close>, \<open>max\<close> and \<open>id\<close> are renamed, since
  HOL has constants of these names. The operand count and the quantity are integers;
  the bounds of the operand range are JavaScript numbers.
\<close>

record QuizConfig =
  cfg_min :: jsnum
  cfg_max :: jsnum
  operandCount :: int
  operators :: "Operator list"
  mixedOperations :: bool
  allowNegative :: bool
  integerDivisionOnly :: bool
  quantity :: int

record MathProblem =
  problem_id :: string
  expression :: string
  correctAnswer :: jsnum
  userAnswer :: string
  isCorrect :: "bool option"
  timestamp :: int

text \<open>
  What the generator takes from outside. \<open>random E k\<close> is the value of the call of
  \<open>Math.random()\<close> made after \<open>k\<close> earlier calls, and every function below threads the
  number of calls made so far. \<open>sort_shuffle E xs k\<close> is what
  \<open>[...xs].sort(() => Math.random() - 0.5)\<close> leaves when it starts after \<open>k\<close> calls:
  the array and the number of calls made when it returns (both depend on the sorting
  algorithm of the engine). \<open>number_string\<close> is the conversion of a number to a
  string, \<open>id_string\<close> is \<open>toString(36)\<close>, and \<open>now E k\<close> is the value of
  \<open>Date.now()\<close> read after \<open>k\<close> calls of \<open>Math.random()\<close> (two reads of the clock
  are always separated by such a call).
\<close>

record env =
  random :: "nat \<Rightarrow> rat"
  sort_shuffle :: "Operator list \<Rightarrow> nat \<Rightarrow> Operator list \<times> nat"
  number_string :: "jsnum \<Rightarrow> string"
  id_string :: "rat \<Rightarrow> string"
  now :: "nat \<Rightarrow> int"

text \<open>Lines 79-81: \<open>n\<close> operands, each
  \<open>Math.floor(Math.random() * (config.max - config.min + 1)) + config.min\<close>.\<close>

primrec sample_numbers :: "env \<Rightarrow> QuizConfig \<Rightarrow> nat \<Rightarrow> nat \<Rightarrow> jsnum list \<times> nat" where
  "sample_numbers E config 0 k = ([], k)"
| "sample_numbers E config (Suc n) k =
     (case sample_numbers E config n (Suc k) of
        (numbers, k') \<Rightarrow>
          (js_add
             (js_floor (js_mul (Num (random E k))
                (js_add (js_sub (cfg_max config) (cfg_min config)) (Num 1))))
             (cfg_min config) # numbers, k'))"

text \<open>\<open>selectedOps[Math.floor(Math.random() * selectedOps.length)]\<close>, which is
  \<open>undefined\<close> when the index is not one of the array.\<close>

definition pick_operator :: "env \<Rightarrow> Operator list \<Rightarrow> nat \<Rightarrow> Operator option" where
  "pick_operator E selectedOps k =
     (if 0 \<le> \<lfloor>random E k * of_nat (length selectedOps)\<rfloor>
         \<and> nat \<lfloor>random E k * of_nat (length selectedOps)\<rfloor> < length selectedOps
      then Some (selectedOps ! nat \<lfloor>random E k * of_nat (length selectedOps)\<rfloor>)
      else None)"

text \<open>Lines 88-95: \<open>n\<close> operator slots; \<open>pop()\<close> takes the last element of the
  pool.\<close>

primrec choose_operators :: "env \<Rightarrow> QuizConfig \<Rightarrow> Operator option \<Rightarrow> nat
    \<Rightarrow> Operator list \<Rightarrow> nat \<Rightarrow> Operator option list \<times> nat" where
  "choose_operators E config baseOp 0 mixedPool k = ([], k)"
| "choose_operators E config baseOp (Suc n) mixedPool k =
     (if mixedOperations config then
        (if length mixedPool > 0 then
           (case choose_operators E config baseOp n (butlast mixedPool) k of
              (ops, k') \<Rightarrow> (Some (last mixedPool) # ops, k'))
         else
           (case choose_operators E config baseOp n mixedPool (Suc k) of
              (ops, k') \<Rightarrow> (pick_operator E (operators config) k # ops, k')))
      else
        (case choose_operators E config baseOp n mixedPool k of
           (ops, k') \<Rightarrow> (baseOp # ops, k')))"

text \<open>Lines 98-104: the swap for a two-operand subtraction. With \<open>count = 2\<close> the
  array has two elements, so both writes are inside it.\<close>

definition swap_operands :: "QuizConfig \<Rightarrow> jsnum list \<Rightarrow> Operator option list \<Rightarrow> jsnum list" where
  "swap_operands config numbers ops =
     (if \<not> allowNegative config \<and> operandCount config = 2 \<and> op_at ops 0 = Some subtraction
      then (if js_lt (num_at numbers 0) (num_at numbers 1)
            then (numbers[0 := num_at numbers 1])[1 := num_at numbers 0]
            else numbers)
      else numbers)"

text \<open>
  Lines 108-114: the division fix-up, from slot \<open>i\<close>. In the generator the operands
  are one more than the operators, so the reads and writes at \<open>i\<close> and \<open>i + 1\<close> are
  inside the array.
\<close>

function fix_divisions :: "env \<Rightarrow> Operator option list \<Rightarrow> nat \<Rightarrow> jsnum list \<Rightarrow> nat
    \<Rightarrow> jsnum list \<times> nat" where
  "fix_divisions E ops i numbers k =
     (if i < length ops then
        (if op_at ops i = Some division then
           fix_divisions E ops (i + 1)
             ((if js_eq (num_at numbers (i + 1)) (Num 0) then numbers[i + 1 := Num 1] else numbers)
                [i := js_mul
                   (num_at (if js_eq (num_at numbers (i + 1)) (Num 0)
                            then numbers[i + 1 := Num 1] else numbers) (i + 1))
                   (js_add (js_floor (js_mul (Num (random E k)) (Num 10))) (Num 1))])
             (Suc k)
         else fix_divisions E ops (i + 1) numbers k)
      else (numbers, k))"
  by pat_completeness auto
termination
  by (relation "measure (\<lambda>(E, ops, i, numbers, k). length ops - i)") auto

declare fix_divisions.simps [simp del]

text \<open>Lines 74-115: the operands and operators of one attempt, after both fix-ups,
  with the number of random calls made.\<close>

definition candidate :: "env \<Rightarrow> QuizConfig \<Rightarrow> nat \<Rightarrow> jsnum list \<times> Operator option list \<times> nat" where
  "candidate E config k =
     (case sample_numbers E config (nat (operandCount config)) k of
        (numbers, k1) \<Rightarrow>
          (case sort_shuffle E (operators config) (Suc k1) of
             (mixedPool, k2) \<Rightarrow>
               (case choose_operators E config (pick_operator E (operators config) k1)
                       (nat (operandCount config - 1)) mixedPool k2 of
                  (ops, k3) \<Rightarrow>
                    (if integerDivisionOnly config
                     then (case fix_divisions E ops 0 (swap_operands config numbers ops) k3 of
                             (numbers', k4) \<Rightarrow> (numbers', ops, k4))
                     else (swap_operands config numbers ops, ops, k3)))))"

text \<open>Lines 123-129: the expression string. The symbol of an \<open>undefined\<close> slot is
  \<open>undefined\<close>, which the template literal prints by that name.\<close>

fun operator_symbol :: "Operator option \<Rightarrow> string" where
  "operator_symbol (Some op) = getOperatorSymbol op"
| "operator_symbol None = ''undefined''"

fun render :: "env \<Rightarrow> jsnum list \<Rightarrow> Operator option list \<Rightarrow> string" where
  "render E [] ops = []"
| "render E (n # numbers) [] = number_string E n @ render E numbers []"
| "render E (n # numbers) (op # ops) =
     number_string E n @ '' '' @ operator_symbol op @ '' '' @ render E numbers ops"

text \<open>Lines 120-121: the two tests that reject a candidate (\<open>continue\<close>).\<close>

definition rejects :: "QuizConfig \<Rightarrow> eval_result \<Rightarrow> bool" where
  "rejects config ev =
     ((\<not> allowNegative config \<and> (js_lt (result ev) (Num 0) \<or> hasNegativeIntermediate ev))
      \<or> (integerDivisionOnly config \<and> \<not> isInteger (result ev)))"

text \<open>One turn of the loop of \<open>generateSingleProblem\<close>: \<open>None\<close> when the candidate is
  rejected, the problem otherwise. The identifier is \<open>substr(2, 9)\<close> of the string of
  a random value; the clock is read after it.\<close>

definition attempt :: "env \<Rightarrow> QuizConfig \<Rightarrow> nat \<Rightarrow> MathProblem option \<times> nat" where
  "attempt E config k =
     (case candidate E config k of
        (numbers, ops, k') \<Rightarrow>
          (if rejects config (evaluateExpressionExtended numbers ops) then (None, k')
           else (Some \<lparr>problem_id = take 9 (drop 2 (id_string E (random E k'))),
                        expression = render E numbers ops,
                        correctAnswer = result (evaluateExpressionExtended numbers ops),
                        userAnswer = [],
                        isCorrect = None,
                        timestamp = now E (Suc k')\<rparr>, Suc k')))"

definition fallback :: "env \<Rightarrow> nat \<Rightarrow> MathProblem" where
  "fallback E k =
     \<lparr>problem_id = ''fallback'', expression = ''1 + 1'', correctAnswer = Num 2,
      userAnswer = [], isCorrect = None, timestamp = now E k\<rparr>"

function attempts_loop :: "env \<Rightarrow> QuizConfig \<Rightarrow> nat \<Rightarrow> nat \<Rightarrow> MathProblem \<times> nat" where
  "attempts_loop E config attempts k =
     (if attempts < 200 then
        (case attempt E config k of
           (None, k') \<Rightarrow> attempts_loop E config (attempts + 1) k'
         | (Some problem, k') \<Rightarrow> (problem, k'))
      else (fallback E k, k))"
  by pat_completeness auto
termination
  by (relation "measure (\<lambda>(E, config, attempts, k). 200 - attempts)") auto

declare attempts_loop.simps [simp del]

definition generateSingleProblem :: "env \<Rightarrow> QuizConfig \<Rightarrow> nat \<Rightarrow> MathProblem \<times> nat" where
  "generateSingleProblem E config k = attempts_loop E config 0 k"

text \<open>\<open>rejected_run E config n k = Some k'\<close>: the \<open>n\<close> attempts made from \<open>k\<close> random
  calls on are all rejected, and \<open>k'\<close> calls have been made after them.\<close>

primrec rejected_run :: "env \<Rightarrow> QuizConfig \<Rightarrow> nat \<Rightarrow> nat \<Rightarrow> nat option" where
  "rejected_run E config 0 k = Some k"
| "rejected_run E config (Suc n) k =
     (case attempt E config k of
        (None, k') \<Rightarrow> rejected_run E config n k'
      | (Some problem, k') \<Rightarrow> None)"

subsection \<open>The problem set\<close>

text \<open>Lines 150-157: the first loop, with the problems, the set of expressions seen
  and the attempts counted; it returns the three variables and the random calls made.\<close>

function dedup_loop :: "env \<Rightarrow> QuizConfig \<Rightarrow> MathProblem list \<Rightarrow> string set \<Rightarrow> nat \<Rightarrow> nat
    \<Rightarrow> MathProblem list \<times> string set \<times> nat \<times> nat" where
  "dedup_loop E config problems seen attempts k =
     (if int (length problems) < quantity config \<and> int attempts < quantity config * 50 then
        (case generateSingleProblem E config k of
           (problem, k') \<Rightarrow>
             (if expression problem \<notin> seen
              then dedup_loop E config (problems @ [problem]) (insert (expression problem) seen)
                     (attempts + 1) k'
              else dedup_loop E config problems seen (attempts + 1) k'))
      else (problems, seen, attempts, k))"
  by pat_completeness auto
termination
  by (relation "measure (\<lambda>(E, config, problems, seen, attempts, k).
        nat (quantity config * 50 - int attempts))") auto

declare dedup_loop.simps [simp del]

text \<open>Lines 159-161: the second loop, which fills up without looking at \<open>seen\<close>.\<close>

function fill_loop :: "env \<Rightarrow> QuizConfig \<Rightarrow> MathProblem list \<Rightarrow> nat \<Rightarrow> MathProblem list \<times> nat" where
  "fill_loop E config problems k =
     (if int (length problems) < quantity config then
        (case generateSingleProblem E config k of
           (problem, k') \<Rightarrow> fill_loop E config (problems @ [problem]) k')
      else (problems, k))"
  by pat_completeness auto
termination
  by (relation "measure (\<lambda>(E, config, problems, k).
        nat (quantity config - int (length problems)))") auto

declare fill_loop.simps [simp del]

definition generateProblemSet :: "env \<Rightarrow> QuizConfig \<Rightarrow> nat \<Rightarrow> MathProblem list \<times> nat" where
  "generateProblemSet E config k =
     (case dedup_loop E config [] {} 0 k of
        (problems, seen, attempts, k') \<Rightarrow> fill_loop E config problems k')"

section \<open>The rating\<close>

record rating =
  grade :: string
  color :: string

definition calculateRating :: "jsnum \<Rightarrow> jsnum \<Rightarrow> jsnum \<Rightarrow> rating" where
  "calculateRating score total' timeInSeconds =
     (let accuracy = js_mul (js_div score total') (Num 100);
          avgTime = js_div timeInSeconds total'
      in if js_eq accuracy (Num 100) then
           (if js_lt avgTime (Num 4) then \<lparr>grade = ''SSS'', color = ''text-yellow-500''\<rparr>
            else if js_lt avgTime (Num 7) then \<lparr>grade = ''S'', color = ''text-orange-500''\<rparr>
            else \<lparr>grade = ''A+'', color = ''text-indigo-500''\<rparr>)
         else if js_ge accuracy (Num 90) then
           (if js_lt avgTime (Num 8) then \<lparr>grade = ''A'', color = ''text-indigo-400''\<rparr>
            else \<lparr>grade = ''B+'', color = ''text-emerald-500''\<rparr>)
         else if js_ge accuracy (Num 80) then \<lparr>grade = ''B'', color = ''text-emerald-400''\<rparr>
         else if js_ge accuracy (Num 60) then \<lparr>grade = ''C'', color = ''text-slate-400''\<rparr>
         else \<lparr>grade = ''D'', color = ''text-rose-400''\<rparr>)"

text \<open>The decision table of section 4.4 of the specification, over the accuracy in
  percent and the average time per problem.\<close>

definition grade_table :: "rat \<Rightarrow> rat \<Rightarrow> string" where
  "grade_table accuracy avgTime =
     (if accuracy = 100 then
        (if avgTime < 4 then ''SSS'' else if avgTime < 7 then ''S'' else ''A+'')
      else if accuracy \<ge> 90 then (if avgTime < 8 then ''A'' else ''B+'')
      else if accuracy \<ge> 80 then ''B''
      else if accuracy \<ge> 60 then ''C''
      else ''D'')"

text \<open>What the tests of lines 120-121 leave of an answer: it is not below zero when
  negative results are not allowed, and it is an integer when integer division is
  required.\<close>

definition within_constraints :: "QuizConfig \<Rightarrow> MathProblem \<Rightarrow> bool" where
  "within_constraints config problem \<longleftrightarrow>
     (allowNegative config \<or> \<not> js_lt (correctAnswer problem) (Num 0))
     \<and> (\<not> integerDivisionOnly config \<or> isInteger (correctAnswer problem))"

section \<open>Inputs for the examples\<close>

text \<open>
  An environment to run the generator on: the random values are given, the sort leaves
  the array as it is without a call of \<open>Math.random()\<close> (what every engine does for an
  array of one operator), an integer is printed in decimal, every identifier string is
  the same, and the clock shows the number of random calls.
\<close>

function digits_of :: "nat \<Rightarrow> string" where
  "digits_of n =
     (if n < 10 then [''0123456789'' ! n]
      else digits_of (n div 10) @ [''0123456789'' ! (n mod 10)])"
  by pat_completeness auto
termination
  by (relation "measure (\<lambda>n. n)") auto

declare digits_of.simps [simp del]

fun decimal_string :: "jsnum \<Rightarrow> string" where
  "decimal_string (Num a) = (if a < 0 then ''-'' else []) @ digits_of (nat \<lfloor>\<bar>a\<bar>\<rfloor>)"
| "decimal_string PInf = ''Infinity''"
| "decimal_string NInf = ''-Infinity''"
| "decimal_string NaN = ''NaN''"

definition example_env :: "(nat \<Rightarrow> rat) \<Rightarrow> env" where
  "example_env rs =
     \<lparr>random = rs, sort_shuffle = (\<lambda>xs k. (xs, k)), number_string = decimal_string,
      id_string = (\<lambda>r. ''0.4fzyo82mvyr''), now = (\<lambda>k. int k)\<rparr>"

text \<open>The easy preset with addition only.\<close>

definition easy_addition :: QuizConfig where
  "easy_addition =
     \<lparr>cfg_min = Num 1, cfg_max = Num 10, operandCount = 2, operators = [addition],
      mixedOperations = False, allowNegative = False, integerDivisionOnly = True,
      quantity = 20\<rparr>"

text \<open>Three operands, all 1, with subtraction only and no negative results: every
  candidate is \<open>1 - 1 - 1\<close>. The quantity is the one of the example in section 8 of
  the specification.\<close>

definition ones_subtraction :: QuizConfig where
  "ones_subtraction =
     \<lparr>cfg_min = Num 1, cfg_max = Num 1, operandCount = 3, operators = [subtraction],
      mixedOperations = False, allowNegative = False, integerDivisionOnly = False,
      quantity = 5\<rparr>"

text \<open>The hard preset with division only and integer division required.\<close>

definition hard_division :: QuizConfig where
  "hard_division =
     \<lparr>cfg_min = Num 10, cfg_max = Num 100, operandCount = 3, operators = [division],
      mixedOperations = False, allowNegative = False, integerDivisionOnly = True,
      quantity = 1\<rparr>"

text \<open>Random values that make the operands 10, 10 and 100 and the multipliers 1
  and 10.\<close>

definition chained_division_randoms :: "nat \<Rightarrow> rat" where
  "chained_division_randoms k = (if k = 2 then 99 / 100 else if k = 5 then 9 / 10 else 0)"

text \<open>Three operands between 0 and \<open>10^200\<close> with multiplication only and no negative
  results, and random values that make the operands \<open>5 * 10^199\<close>, \<open>5 * 10^199\<close>
  and 0.\<close>

definition huge_multiplication :: QuizConfig where
  "huge_multiplication =
     \<lparr>cfg_min = Num 0, cfg_max = Num (10 ^ 200), operandCount = 3,
      operators = [multiplication], mixedOperations = False, allowNegative = False,
      integerDivisionOnly = False, quantity = 1\<rparr>"

definition huge_randoms :: "nat \<Rightarrow> rat" where
  "huge_randoms k = (if k < 2 then 1 / 2 else 0)"

text \<open>Three operands between 1 and 10 with subtraction only, no negative results and
  integer results; random values that make the first candidate \<open>1 - 5 - 2\<close> and the
  second \<open>9 - 3 - 2\<close>.\<close>

definition easy_subtraction :: QuizConfig where
  "easy_subtraction =
     \<lparr>cfg_min = Num 1, cfg_max = Num 10, operandCount = 3, operators = [subtraction],
      mixedOperations = False, allowNegative = False, integerDivisionOnly = True,
      quantity = 10\<rparr>"

definition subtraction_randoms :: "nat \<Rightarrow> rat" where
  "subtraction_randoms k =
     (if k = 1 then 4 / 10 else if k = 2 then 1 / 10
      else if k = 4 then 8 / 10 else if k = 5 then 2 / 10 else if k = 6 then 1 / 10
      else 0)"

text \<open>Two operands between 1 and 10 with division only and integer results; random
  values that make the operands 1 and 4 and the multiplier 2.\<close>

definition easy_division :: QuizConfig where
  "easy_division =
     \<lparr>cfg_min = Num 1, cfg_max = Num 10, operandCount = 2, operators = [division],
      mixedOperations = False, allowNegative = False, integerDivisionOnly = True,
      quantity = 10\<rparr>"

definition division_randoms :: "nat \<Rightarrow> rat" where
  "division_randoms k = (if k = 1 then 3 / 10 else if k = 3 then 1 / 10 else 0)"

section \<open>Properties\<close>

subsection \<open>The difficulty presets\<close>

text \<open>
  C9. The preset table maps easy to min 1, max 10, operandCount 2, medium to min 10,
  max 50, operandCount 2, hard to min 10, max 100, operandCount 3, and has no entry
  for custom.
\<close>

theorem difficulty_presets_table:
  "DIFFICULTY_PRESETS easy = Some \<lparr>preset_min = 1, preset_max = 10, preset_operandCount = 2\<rparr>
   \<and> DIFFICULTY_PRESETS medium = Some \<lparr>preset_min = 10, preset_max = 50, preset_operandCount = 2\<rparr>
   \<and> DIFFICULTY_PRESETS hard = Some \<lparr>preset_min = 10, preset_max = 100, preset_operandCount = 3\<rparr>
   \<and> DIFFICULTY_PRESETS custom = None"
  by simp

subsection \<open>Finite results inside and outside the range of the doubles\<close>

lemma overflow_bound_large: "(2::rat) ^ 1000 < overflow_bound"
  by (simp add: overflow_bound_def)

lemma overflow_bound_below: "overflow_bound < (2::rat) ^ 1100"
  by (simp add: overflow_bound_def)

lemma to_double_range_below:
  "- (2 ^ 1000) < r \<Longrightarrow> r < 2 ^ 1000 \<Longrightarrow> to_double_range r = Num r"
  using overflow_bound_large by (simp add: to_double_range_def)

lemma to_double_range_above:
  "2 ^ 1100 \<le> r \<Longrightarrow> to_double_range r = PInf"
  using overflow_bound_below by (simp add: to_double_range_def)

lemma to_double_range_small [simp]:
  "- 1000000 < r \<Longrightarrow> r < 1000000 \<Longrightarrow> to_double_range r = Num r"
proof -
  assume a: "- 1000000 < r" "r < 1000000"
  have "(1000000::rat) < 2 ^ 1000" by simp
  with a show ?thesis by (intro to_double_range_below) simp_all
qed

lemma floor_rat_numeral_div [simp]:
  "\<lfloor>(numeral a :: rat) / numeral b\<rfloor> = numeral a div numeral b"
  by (metis floor_divide_of_int_eq of_int_numeral)

lemma floor_rat_neg_numeral_div [simp]:
  "\<lfloor>- ((numeral a :: rat) / numeral b)\<rfloor> = - numeral a div numeral b"
  by (metis divide_minus_left floor_divide_of_int_eq of_int_neg_numeral of_int_numeral)

lemma floor_rat_one_div [simp]:
  "\<lfloor>(1 :: rat) / numeral b\<rfloor> = 1 div numeral b"
  by (metis floor_divide_of_int_eq of_int_1 of_int_numeral)

lemma floor_rat_neg_one_div [simp]:
  "\<lfloor>- ((1 :: rat) / numeral b)\<rfloor> = - 1 div numeral b"
  by (metis divide_minus_left floor_divide_of_int_eq of_int_1 of_int_minus of_int_numeral)

subsection \<open>Reading the arrays, and the two passes on a list with a head\<close>

lemma num_at_simps [simp]:
  "num_at [] i = NaN"
  "num_at (x # xs) 0 = x"
  "num_at (x # xs) (Suc i) = num_at xs i"
  by (simp_all add: num_at_def)

lemma op_at_simps [simp]:
  "op_at [] i = None"
  "op_at (x # xs) 0 = x"
  "op_at (x # xs) (Suc i) = op_at xs i"
  by (simp_all add: op_at_def)

lemma md_pass_Nil [simp]: "md_pass i ns [] = (ns, [])"
  by (simp add: md_pass.simps)




lemma as_pass_Nil [simp]: "as_pass i ns [] r neg = (r, neg)"
  by (simp add: as_pass.simps)









lemma as_pass_running:
  "i \<le> length ops \<Longrightarrow>
   as_pass i ns ops (running_result ns ops i) neg =
     (running_result ns ops (length ops),
      neg \<or> (\<exists>k. i < k \<and> k \<le> length ops \<and> js_lt (running_result ns ops k) (Num 0)))"
proof (induction "length ops - i" arbitrary: i neg)
  case 0
  then have "i = length ops" by simp
  then show ?case by (subst as_pass.simps) auto
next
  case (Suc d)
  then have lt: "i < length ops" and d: "d = length ops - Suc i" and le: "Suc i \<le> length ops"
    by simp_all
  let ?P = "\<lambda>k. js_lt (running_result ns ops k) (Num 0)"
  let ?neg = "?P (Suc i) \<or> neg"
  have "as_pass i ns ops (running_result ns ops i) neg =
        as_pass (Suc i) ns ops (running_result ns ops (Suc i)) ?neg"
    using lt by (subst as_pass.simps) simp
  also have "\<dots> = (running_result ns ops (length ops),
      ?neg \<or> (\<exists>k. Suc i < k \<and> k \<le> length ops \<and> ?P k))"
    by (rule Suc.hyps(1) [OF d le])
  also have "(?neg \<or> (\<exists>k. Suc i < k \<and> k \<le> length ops \<and> ?P k))
      = (neg \<or> (\<exists>k. i < k \<and> k \<le> length ops \<and> ?P k))"
  proof -
    have "(\<exists>k. i < k \<and> k \<le> length ops \<and> ?P k) \<longleftrightarrow>
          (?P (Suc i) \<or> (\<exists>k. Suc i < k \<and> k \<le> length ops \<and> ?P k))"
    proof
      assume "\<exists>k. i < k \<and> k \<le> length ops \<and> ?P k"
      then obtain k where k: "i < k" "k \<le> length ops" "?P k" by blast
      show "?P (Suc i) \<or> (\<exists>k. Suc i < k \<and> k \<le> length ops \<and> ?P k)"
      proof (cases "k = Suc i")
        case True
        with k show ?thesis by simp
      next
        case False
        with k have "Suc i < k" by simp
        with k show ?thesis by blast
      qed
    next
      assume "?P (Suc i) \<or> (\<exists>k. Suc i < k \<and> k \<le> length ops \<and> ?P k)"
      then show "\<exists>k. i < k \<and> k \<le> length ops \<and> ?P k"
      proof
        assume "?P (Suc i)"
        with le show ?thesis by blast
      next
        assume "\<exists>k. Suc i < k \<and> k \<le> length ops \<and> ?P k"
        then obtain k where "Suc i < k" "k \<le> length ops" "?P k" by blast
        then have "i < k \<and> k \<le> length ops \<and> ?P k" by simp
        then show ?thesis by blast
      qed
    qed
    then show ?thesis by blast
  qed
  finally show ?case .
qed

lemma flag_iff:
  "hasNegativeIntermediate (evaluateExpressionExtended numbers ops) \<longleftrightarrow>
     (\<exists>k \<le> length (snd (md_pass 0 numbers ops)).
        js_lt (running_result (fst (md_pass 0 numbers ops)) (snd (md_pass 0 numbers ops)) k) (Num 0))"
proof -
  obtain a b where ab: "md_pass 0 numbers ops = (a, b)"
    by (cases "md_pass 0 numbers ops")
  let ?P = "\<lambda>k. js_lt (running_result a b k) (Num 0)"
  have run: "as_pass 0 a b (running_result a b 0) (?P 0) =
     (running_result a b (length b), ?P 0 \<or> (\<exists>k. 0 < k \<and> k \<le> length b \<and> ?P k))"
    by (rule as_pass_running) simp
  have "(?P 0 \<or> (\<exists>k. 0 < k \<and> k \<le> length b \<and> ?P k)) = (\<exists>k \<le> length b. ?P k)"
  proof
    assume "?P 0 \<or> (\<exists>k. 0 < k \<and> k \<le> length b \<and> ?P k)"
    then show "\<exists>k \<le> length b. ?P k" by auto
  next
    assume "\<exists>k \<le> length b. ?P k"
    then obtain k where k: "k \<le> length b" "?P k" by blast
    show "?P 0 \<or> (\<exists>k. 0 < k \<and> k \<le> length b \<and> ?P k)"
    proof (cases "k = 0")
      case True with k show ?thesis by simp
    next
      case False with k show ?thesis by auto
    qed
  qed
  with run show ?thesis
    by (simp add: evaluateExpressionExtended_def ab)
qed

lemmas evaluator_defs = evaluateExpressionExtended_def unrounded_result_def md_pass.simps
  as_pass.simps md_value_def as_value_def js_sub_def round2_def

lemma round2_zero [simp]: "round2 (Num 0) = Num 0"
  by (simp add: round2_def)

subsection \<open>The reference parser builds the tree of the standard precedence\<close>

text \<open>
  The tree the reference builds reads, from left to right, as the sequence it was built
  from; it is a left-nested sum of left-nested products; and it is the only such tree
  for its sequence.
\<close>

lemma parse_from_operands:
  "length ns = length ops \<Longrightarrow>
   operands_of (parse_from lhs t ops ns) = operands_of (attach lhs t) @ ns"
proof (induction lhs t ops ns rule: parse_from.induct)
  case (3 lhs t op ops n ns)
  then show ?case by (cases lhs) auto
qed simp_all

lemma parse_from_operators:
  "length ns = length ops \<Longrightarrow>
   operators_of (parse_from lhs t ops ns) = operators_of (attach lhs t) @ ops"
proof (induction lhs t ops ns rule: parse_from.induct)
  case (3 lhs t op ops n ns)
  then show ?case by (cases lhs) auto
qed simp_all

lemma product_Bin: "is_product (Bin op l r) \<longleftrightarrow> is_md op \<and> is_product l \<and> (\<exists>x. r = Lit x)"
  by (cases r) auto

lemma product_is_standard: "is_product t \<Longrightarrow> is_standard t"
  by (cases t) (auto simp add: product_Bin)

lemma attach_standard:
  "is_product t \<Longrightarrow> (\<forall>s a. lhs = Some (s, a) \<longrightarrow> \<not> is_md a \<and> is_standard s) \<Longrightarrow>
   is_standard (attach lhs t)"
  by (cases lhs) (auto simp add: product_is_standard)

lemma parse_from_standard:
  "is_product t \<Longrightarrow> (\<forall>s a. lhs = Some (s, a) \<longrightarrow> \<not> is_md a \<and> is_standard s) \<Longrightarrow>
   is_standard (parse_from lhs t ops ns)"
proof (induction lhs t ops ns rule: parse_from.induct)
  case (1 lhs t ns)
  then show ?case by (simp add: attach_standard)
next
  case (2 lhs t op ops)
  then show ?case by (simp add: attach_standard)
next
  case (3 lhs t op ops n ns)
  show ?case
  proof (cases "is_md op")
    case True
    with "3.prems"(1) have "is_product (Bin op t (Lit n))" by simp
    from "3.IH"(1) [OF True this "3.prems"(2)] True show ?thesis by simp
  next
    case False
    from "3.prems" have "is_standard (attach lhs t)" by (rule attach_standard)
    with False have "\<forall>s a. Some (attach lhs t, op) = Some (s, a) \<longrightarrow> \<not> is_md a \<and> is_standard s"
      by simp
    from "3.IH"(2) [OF False _ this] False show ?thesis by simp
  qed
qed

lemma operands_nonempty: "operands_of e \<noteq> []"
  by (induction e) auto

lemma operands_operators_length: "length (operands_of e) = Suc (length (operators_of e))"
  by (induction e) auto

lemma parse_product:
  "is_product p \<Longrightarrow> operands_of p = n # ns \<Longrightarrow>
   parse_from lhs (Lit n) (operators_of p @ ops') (ns @ ns') = parse_from lhs p ops' ns'"
proof (induction p arbitrary: ns ops' ns')
  case (Lit x)
  then show ?case by simp
next
  case (Bin op l r)
  from Bin.prems(1) obtain x where r: "r = Lit x" and md: "is_md op" and l: "is_product l"
    by (auto simp add: product_Bin)
  obtain m ms where lm: "operands_of l = m # ms"
    using operands_nonempty [of l] by (cases "operands_of l") auto
  with Bin.prems(2) r have n: "m = n" and ns: "ns = ms @ [x]" by simp_all
  from Bin.IH(1) [OF l, of ms "op # ops'" "x # ns'"] lm n
  have "parse_from lhs (Lit n) (operators_of l @ op # ops') (ms @ x # ns')
      = parse_from lhs l (op # ops') (x # ns')"
    by simp
  with md r ns show ?case by simp
qed

lemma attach_parser_state: "attach (fst (parser_state e)) (snd (parser_state e)) = e"
  by (cases e) auto

lemma parse_standard:
  "is_standard e \<Longrightarrow> operands_of e = n # ns \<Longrightarrow>
   parse_from None (Lit n) (operators_of e @ ops') (ns @ ns')
     = parse_from (fst (parser_state e)) (snd (parser_state e)) ops' ns'"
proof (induction e arbitrary: ns ops' ns')
  case (Lit x)
  then show ?case by simp
next
  case (Bin op l r)
  show ?case
  proof (cases "is_md op")
    case True
    with Bin.prems(1) have "is_product (Bin op l r)" by simp
    from parse_product [OF this Bin.prems(2), of None ops' ns'] True show ?thesis by simp
  next
    case False
    with Bin.prems(1) have l: "is_standard l" and r: "is_product r" by simp_all
    obtain m ms where lm: "operands_of l = m # ms"
      using operands_nonempty [of l] by (cases "operands_of l") auto
    obtain y ys where ry: "operands_of r = y # ys"
      using operands_nonempty [of r] by (cases "operands_of r") auto
    from Bin.prems(2) lm ry have n: "m = n" and ns: "ns = ms @ y # ys" by simp_all
    have "parse_from None (Lit n) (operators_of (Bin op l r) @ ops') (ns @ ns')
        = parse_from None (Lit n) (operators_of l @ op # operators_of r @ ops') (ms @ y # ys @ ns')"
      by (simp add: ns)
    also from Bin.IH(1) [OF l, of ms "op # operators_of r @ ops'" "y # ys @ ns'"] lm n
    have "\<dots> = parse_from (fst (parser_state l)) (snd (parser_state l))
        (op # operators_of r @ ops') (y # ys @ ns')"
      by simp
    also from False have "\<dots> = parse_from (Some (l, op)) (Lit y) (operators_of r @ ops') (ys @ ns')"
      by (simp add: attach_parser_state)
    also from parse_product [OF r ry] have "\<dots> = parse_from (Some (l, op)) r ops' ns'" .
    finally show ?thesis using False by simp
  qed
qed

lemma standard_parse_reads:
  "length numbers = Suc (length ops) \<Longrightarrow>
   operands_of (standard_parse numbers ops) = numbers
   \<and> operators_of (standard_parse numbers ops) = ops
   \<and> is_standard (standard_parse numbers ops)"
  by (cases numbers) (simp_all add: parse_from_operands parse_from_operators parse_from_standard)

lemma standard_parse_unique:
  assumes "is_standard e"
  shows "standard_parse (operands_of e) (operators_of e) = e"
proof -
  obtain n ns where ne: "operands_of e = n # ns"
    using operands_nonempty [of e] by (cases "operands_of e") auto
  from parse_standard [OF assms ne, of "[]" "[]"] have
    "parse_from None (Lit n) (operators_of e) ns = e"
    by (simp add: attach_parser_state)
  with ne show ?thesis by simp
qed

subsection \<open>The evaluator and the reference evaluator\<close>

text \<open>The result returned is the value the two passes compute, rounded by line 65.\<close>

lemma result_is_rounded:
  "result (evaluateExpressionExtended numbers ops) = round2 (unrounded_result numbers ops)"
  by (simp add: evaluateExpressionExtended_def unrounded_result_def split: prod.splits)



subsection \<open>The negative-intermediate flag\<close>

text \<open>
  C7. The flag is true if and only if some running value of the add/subtract pass is
  negative: the first operand left by the multiply/divide pass, or the running result
  after one of the add/subtract steps. \<open>evaluate([2,5],[subtraction])\<close> gives -3 with
  the flag true, and \<open>evaluate([6,3],[multiplication])\<close> gives the flag false.
\<close>

theorem negative_intermediate_flag:
  "(hasNegativeIntermediate (evaluateExpressionExtended numbers ops) \<longleftrightarrow>
      (\<exists>k \<le> length (snd (md_pass 0 numbers ops)).
         js_lt (running_result (fst (md_pass 0 numbers ops))
                  (snd (md_pass 0 numbers ops)) k) (Num 0)))
   \<and> evaluateExpressionExtended [Num 2, Num 5] [Some subtraction]
       = \<lparr>result = Num (- 3), hasNegativeIntermediate = True\<rparr>
   \<and> hasNegativeIntermediate (evaluateExpressionExtended [Num 6, Num 3] [Some multiplication])
       = False"
proof -
  have "evaluateExpressionExtended [Num 2, Num 5] [Some subtraction]
       = \<lparr>result = Num (- 3), hasNegativeIntermediate = True\<rparr>"
    by (simp add: evaluator_defs)
  moreover have "evaluateExpressionExtended [Num 6, Num 3] [Some multiplication]
      = \<lparr>result = Num 18, hasNegativeIntermediate = False\<rparr>"
    by (simp add: evaluator_defs)
  ultimately show ?thesis
    using flag_iff [of numbers ops] by simp
qed

subsection \<open>Division by zero\<close>

lemma md_pass_zero_divisor:
  "i < length ops \<Longrightarrow> op_at ops i = Some division \<Longrightarrow> num_at ns (i + 1) = Num 0 \<Longrightarrow>
   md_pass i ns ops = md_pass i (take i ns @ Num 0 # drop (i + 2) ns) (take i ops @ drop (i + 1) ops)"
  by (subst md_pass.simps) (simp add: md_value_def)

text \<open>
  C6. A division whose right operand is exactly zero has the value zero: for the
  reduction itself, for the step of the multiply/divide pass at such a slot, and for
  the whole evaluation of \<open>n / 0\<close>, whatever \<open>n\<close> is. The evaluator raises no error:
  it is a total function of every pair of lists (both passes terminate, and no
  operation of them can throw).
\<close>

theorem zero_divisor_is_defused:
  "md_value (Some division) n1 (Num 0) = Num 0
   \<and> (i < length ops \<and> op_at ops i = Some division \<and> num_at numbers (i + 1) = Num 0 \<longrightarrow>
        md_pass i numbers ops =
          md_pass i (take i numbers @ Num 0 # drop (i + 2) numbers) (take i ops @ drop (i + 1) ops))
   \<and> evaluateExpressionExtended [n1, Num 0] [Some division]
        = \<lparr>result = Num 0, hasNegativeIntermediate = False\<rparr>"
proof (intro conjI impI)
  show "md_value (Some division) n1 (Num 0) = Num 0"
    by (simp add: md_value_def)
  show "evaluateExpressionExtended [n1, Num 0] [Some division]
        = \<lparr>result = Num 0, hasNegativeIntermediate = False\<rparr>"
    by (simp add: evaluateExpressionExtended_def md_pass.simps as_pass.simps md_value_def)
next
  assume "i < length ops \<and> op_at ops i = Some division \<and> num_at numbers (i + 1) = Num 0"
  then show "md_pass i numbers ops =
      md_pass i (take i numbers @ Num 0 # drop (i + 2) numbers) (take i ops @ drop (i + 1) ops)"
    by (simp add: md_pass_zero_divisor)
qed

text \<open>C6 at \<open>4 / 0 + 2\<close>: the division slot is reduced to zero and the result is 2.\<close>

theorem zero_divisor_is_defused_witness:
  "0 < length [Some division, Some addition]
   \<and> op_at [Some division, Some addition] 0 = Some division
   \<and> num_at [Num 4, Num 0, Num 2] (0 + 1) = Num 0
   \<and> md_pass 0 [Num 4, Num 0, Num 2] [Some division, Some addition]
        = md_pass 0 [Num 0, Num 2] [Some addition]
   \<and> result (evaluateExpressionExtended [Num 4, Num 0, Num 2] [Some division, Some addition])
        = Num 2"
proof -
  have "result (evaluateExpressionExtended [Num 4, Num 0, Num 2] [Some division, Some addition])
        = Num 2"
    by (simp add: evaluator_defs)
  with zero_divisor_is_defused [of _ 0 "[Some division, Some addition]" "[Num 4, Num 0, Num 2]"]
  show ?thesis by simp
qed

subsection \<open>The rating\<close>

text \<open>A quotient or product that is too large for a double compares with the numbers
  of the table as its exact value does.\<close>

lemma to_double_range_cases:
  "(to_double_range r = Num r \<and> - overflow_bound < r \<and> r < overflow_bound)
   \<or> (to_double_range r = PInf \<and> overflow_bound \<le> r)
   \<or> (to_double_range r = NInf \<and> r \<le> - overflow_bound)"
  using overflow_bound_large by (auto simp add: to_double_range_def)

lemma overflow_bound_table: "1000000 < overflow_bound"
proof -
  have "(1000000::rat) < 2 ^ 1000" by simp
  with overflow_bound_large show ?thesis by simp
qed

lemma accuracy_cases:
  assumes "0 \<le> x"
  shows "js_mul (to_double_range x) (Num 100) = Num (x * 100)
     \<or> (js_mul (to_double_range x) (Num 100) = PInf \<and> 1000000 < x * 100)"
proof -
  from to_double_range_cases [of x] assms overflow_bound_table
  consider "to_double_range x = Num x" | "to_double_range x = PInf" "1000000 < x"
    by fastforce
  then show ?thesis
  proof cases
    case 1
    from to_double_range_cases [of "x * 100"] assms overflow_bound_table
    consider "to_double_range (x * 100) = Num (x * 100)"
      | "to_double_range (x * 100) = PInf" "1000000 < x * 100"
      by fastforce
    then show ?thesis using 1 by cases simp_all
  next
    case 2
    then show ?thesis by (simp add: signed_inf_def)
  qed
qed

lemma average_cases:
  assumes "0 \<le> y"
  shows "to_double_range y = Num y \<or> (to_double_range y = PInf \<and> 1000000 < y)"
  using to_double_range_cases [of y] assms overflow_bound_table by fastforce

lemma rating_table:
  assumes "0 \<le> s" and "0 < n" and "0 \<le> t"
  shows "grade (calculateRating (Num s) (Num n) (Num t)) = grade_table (s / n * 100) (t / n)"
proof -
  from assms have x: "0 \<le> s / n" and y: "0 \<le> t / n" and n: "n \<noteq> 0" by simp_all
  from accuracy_cases [OF x] show ?thesis
  proof
    assume acc: "js_mul (to_double_range (s / n)) (Num 100) = Num (s / n * 100)"
    from average_cases [OF y] show ?thesis
    proof
      assume "to_double_range (t / n) = Num (t / n)"
      with acc n show ?thesis
        by (simp add: calculateRating_def grade_table_def Let_def del: to_double_range_small)
    next
      assume "to_double_range (t / n) = PInf \<and> 1000000 < t / n"
      with acc n show ?thesis
        by (simp add: calculateRating_def grade_table_def Let_def del: to_double_range_small)
    qed
  next
    assume acc: "js_mul (to_double_range (s / n)) (Num 100) = PInf \<and> 1000000 < s / n * 100"
    from average_cases [OF y] show ?thesis
    proof
      assume "to_double_range (t / n) = Num (t / n)"
      with acc n show ?thesis
        by (simp add: calculateRating_def grade_table_def Let_def del: to_double_range_small)
    next
      assume "to_double_range (t / n) = PInf \<and> 1000000 < t / n"
      with acc n show ?thesis
        by (simp add: calculateRating_def grade_table_def Let_def del: to_double_range_small)
    qed
  qed
qed

text \<open>
  C3. For a score of at least 0, a total above 0 and an elapsed time of at least 0, the
  grade is the one of the decision table over the accuracy \<open>score / total * 100\<close> and
  the average time \<open>elapsedSeconds / total\<close>; \<open>rate(10,10,30)\<close> is SSS,
  \<open>rate(9,10,80)\<close> is B+ and \<open>rate(5,10,100)\<close> is D.
\<close>

theorem rating_decision_table:
  "(0 \<le> score \<and> 0 < n \<and> 0 \<le> t \<longrightarrow>
      grade (calculateRating (Num score) (Num n) (Num t)) = grade_table (score / n * 100) (t / n))
   \<and> grade (calculateRating (Num 10) (Num 10) (Num 30)) = ''SSS''
   \<and> grade (calculateRating (Num 9) (Num 10) (Num 80)) = ''B+''
   \<and> grade (calculateRating (Num 5) (Num 10) (Num 100)) = ''D''"
proof (intro conjI impI)
  assume "0 \<le> score \<and> 0 < n \<and> 0 \<le> t"
  then show "grade (calculateRating (Num score) (Num n) (Num t))
      = grade_table (score / n * 100) (t / n)"
    by (simp add: rating_table)
qed (simp_all add: calculateRating_def Let_def)

text \<open>C3 at a full score in 45 seconds for 10 problems: the grade is S.\<close>

theorem rating_decision_table_witness:
  "(0::rat) \<le> 10 \<and> (0::rat) < 10 \<and> (0::rat) \<le> 45
   \<and> grade (calculateRating (Num 10) (Num 10) (Num 45)) = grade_table (10 / 10 * 100) (45 / 10)
   \<and> grade (calculateRating (Num 10) (Num 10) (Num 45)) = ''S''"
proof -
  have "grade_table (10 / 10 * 100) (45 / 10) = ''S''"
    by (simp add: grade_table_def)
  with rating_decision_table [of 10 10 45] show ?thesis by simp
qed

text \<open>
  C10. With a total of zero the rating raises nothing. For a score of zero the accuracy
  is \<open>NaN\<close>, every comparison of the table is false and the grade is D, whatever the
  time. For a score above zero the accuracy is plus infinity, the average time is not
  below 8 for a time of at least 0, and the grade is B+.
\<close>

theorem rating_at_total_zero:
  "js_mul (js_div (Num 0) (Num 0)) (Num 100) = NaN
   \<and> grade (calculateRating (Num 0) (Num 0) t) = ''D''
   \<and> (0 < s \<and> 0 \<le> u \<longrightarrow>
        js_mul (js_div (Num s) (Num 0)) (Num 100) = PInf
        \<and> \<not> js_lt (js_div (Num u) (Num 0)) (Num 8)
        \<and> grade (calculateRating (Num s) (Num 0) (Num u)) = ''B+'')"
proof (intro conjI impI)
  show "grade (calculateRating (Num 0) (Num 0) t) = ''D''"
    by (cases t) (simp_all add: calculateRating_def Let_def signed_inf_def)
qed (simp_all add: calculateRating_def Let_def signed_inf_def)

text \<open>C10 at a score of 3 of 0 problems in 20 seconds: the grade is B+.\<close>

theorem rating_at_total_zero_witness:
  "(0::rat) < 3 \<and> (0::rat) \<le> 20
   \<and> js_mul (js_div (Num 3) (Num 0)) (Num 100) = PInf
   \<and> grade (calculateRating (Num 3) (Num 0) (Num 20)) = ''B+''"
  using rating_at_total_zero [of _ 3 20] by simp

subsection \<open>The attempts of the single-problem generator\<close>

lemma attempts_loop_skip:
  "rejected_run E config n k = Some k' \<Longrightarrow> a + n \<le> 200 \<Longrightarrow>
   attempts_loop E config a k = attempts_loop E config (a + n) k'"
proof (induction n arbitrary: a k)
  case 0
  then show ?case by simp
next
  case (Suc n)
  from Suc.prems(1) obtain k1 where att: "attempt E config k = (None, k1)"
    and run: "rejected_run E config n k1 = Some k'"
    by (auto split: prod.splits option.splits)
  from Suc.prems(2) have "a < 200" and "Suc a + n \<le> 200" by simp_all
  with Suc.IH [OF run, of "Suc a"] att show ?case
    by (subst attempts_loop.simps) simp
qed

lemma attempts_loop_exhausted: "attempts_loop E config 200 k = (fallback E k, k)"
  by (subst attempts_loop.simps) simp

lemma attempts_loop_outcome:
  "a \<le> 200 \<Longrightarrow>
   \<exists>n k'. a + n \<le> 200 \<and> rejected_run E config n k = Some k' \<and>
     (if a + n = 200 then attempts_loop E config a k = (fallback E k', k')
      else (\<exists>problem k''. attempt E config k' = (Some problem, k'')
              \<and> attempts_loop E config a k = (problem, k'')))"
proof (induction "200 - a" arbitrary: a k)
  case 0
  then have a: "a = 200" by simp
  have "a + 0 \<le> 200 \<and> rejected_run E config 0 k = Some k \<and>
     (if a + 0 = 200 then attempts_loop E config a k = (fallback E k, k)
      else (\<exists>problem k''. attempt E config k = (Some problem, k'')
              \<and> attempts_loop E config a k = (problem, k'')))"
    using a by (simp add: attempts_loop_exhausted)
  then show ?case by blast
next
  case (Suc d)
  then have lt: "a < 200" by simp
  obtain r k1 where att: "attempt E config k = (r, k1)"
    by (cases "attempt E config k")
  show ?case
  proof (cases r)
    case (Some problem)
    with att lt have "attempts_loop E config a k = (problem, k1)"
      by (subst attempts_loop.simps) simp
    with att Some lt have "a + 0 \<le> 200 \<and> rejected_run E config 0 k = Some k \<and>
     (if a + 0 = 200 then attempts_loop E config a k = (fallback E k, k)
      else (\<exists>problem k''. attempt E config k = (Some problem, k'')
              \<and> attempts_loop E config a k = (problem, k'')))"
      by simp
    then show ?thesis by blast
  next
    case None
    with att lt have step: "attempts_loop E config a k = attempts_loop E config (Suc a) k1"
      by (subst attempts_loop.simps) simp
    from Suc.hyps(2) lt have "d = 200 - Suc a" and "Suc a \<le> 200" by simp_all
    from Suc.hyps(1) [OF this, of k1] obtain n k' where
      n: "Suc a + n \<le> 200" "rejected_run E config n k1 = Some k'"
      "if Suc a + n = 200 then attempts_loop E config (Suc a) k1 = (fallback E k', k')
       else (\<exists>problem k''. attempt E config k' = (Some problem, k'')
              \<and> attempts_loop E config (Suc a) k1 = (problem, k''))"
      by blast
    from n att None step have "a + Suc n \<le> 200 \<and> rejected_run E config (Suc n) k = Some k' \<and>
     (if a + Suc n = 200 then attempts_loop E config a k = (fallback E k', k')
      else (\<exists>problem k''. attempt E config k' = (Some problem, k'')
              \<and> attempts_loop E config a k = (problem, k'')))"
      by simp
    then show ?thesis by blast
  qed
qed

lemma ones_subtraction_evaluates:
  "evaluateExpressionExtended [Num 1, Num 1, Num 1] [Some subtraction, Some subtraction]
   = \<lparr>result = Num (- 1), hasNegativeIntermediate = True\<rparr>"
  by (simp add: evaluator_defs)

lemma ones_subtraction_rejected:
  "attempt (example_env (\<lambda>k. 0)) ones_subtraction k = (None, k + 4)"
  by (simp add: attempt_def candidate_def ones_subtraction_def example_env_def eval_nat_numeral
      pick_operator_def swap_operands_def rejects_def js_sub_def ones_subtraction_evaluates)

lemma ones_subtraction_run:
  "rejected_run (example_env (\<lambda>k. 0)) ones_subtraction n k = Some (k + 4 * n)"
  by (induction n arbitrary: k) (simp_all add: ones_subtraction_rejected)

text \<open>
  C8. \<open>generateSingleProblem\<close> never fails: it is a total function, and it returns
  after \<open>n \<le> 200\<close> rejected attempts, with the problem of the next attempt when
  \<open>n < 200\<close> and with the fallback when \<open>n = 200\<close>. When all 200 attempts are
  rejected the problem returned has the expression \<open>1 + 1\<close>, the answer 2, an empty
  user answer and no correctness flag.
\<close>

theorem single_problem_never_fails:
  "(\<exists>n k1. n \<le> 200 \<and> rejected_run E config n k = Some k1 \<and>
      (if n = 200 then generateSingleProblem E config k = (fallback E k1, k1)
       else (\<exists>problem k2. attempt E config k1 = (Some problem, k2)
               \<and> generateSingleProblem E config k = (problem, k2))))
   \<and> (rejected_run E config 200 k = Some k' \<longrightarrow>
        generateSingleProblem E config k =
          (\<lparr>problem_id = ''fallback'', expression = ''1 + 1'', correctAnswer = Num 2,
            userAnswer = [], isCorrect = None, timestamp = now E k'\<rparr>, k'))"
proof
  from attempts_loop_outcome [OF le0, of E config k] obtain n k1 where
    "0 + n \<le> 200" and "rejected_run E config n k = Some k1"
    and "if 0 + n = 200 then attempts_loop E config 0 k = (fallback E k1, k1)
       else (\<exists>problem k2. attempt E config k1 = (Some problem, k2)
               \<and> attempts_loop E config 0 k = (problem, k2))"
    by blast
  then have "n \<le> 200 \<and> rejected_run E config n k = Some k1 \<and>
      (if n = 200 then generateSingleProblem E config k = (fallback E k1, k1)
       else (\<exists>problem k2. attempt E config k1 = (Some problem, k2)
               \<and> generateSingleProblem E config k = (problem, k2)))"
    by (simp add: generateSingleProblem_def)
  then show "\<exists>n k1. n \<le> 200 \<and> rejected_run E config n k = Some k1 \<and>
      (if n = 200 then generateSingleProblem E config k = (fallback E k1, k1)
       else (\<exists>problem k2. attempt E config k1 = (Some problem, k2)
               \<and> generateSingleProblem E config k = (problem, k2)))"
    by blast
  show "rejected_run E config 200 k = Some k' \<longrightarrow>
        generateSingleProblem E config k =
          (\<lparr>problem_id = ''fallback'', expression = ''1 + 1'', correctAnswer = Num 2,
            userAnswer = [], isCorrect = None, timestamp = now E k'\<rparr>, k')"
  proof
    assume "rejected_run E config 200 k = Some k'"
    from attempts_loop_skip [OF this, of 0]
    have "attempts_loop E config 0 k = attempts_loop E config 200 k'" by simp
    then show "generateSingleProblem E config k =
          (\<lparr>problem_id = ''fallback'', expression = ''1 + 1'', correctAnswer = Num 2,
            userAnswer = [], isCorrect = None, timestamp = now E k'\<rparr>, k')"
      by (simp add: generateSingleProblem_def attempts_loop_exhausted fallback_def)
  qed
qed

text \<open>C8 where every candidate is \<open>1 - 1 - 1\<close>: 200 attempts are rejected, each after
  four random calls, and the fallback is returned.\<close>

theorem single_problem_never_fails_witness:
  "rejected_run (example_env (\<lambda>k. 0)) ones_subtraction 200 0 = Some 800
   \<and> generateSingleProblem (example_env (\<lambda>k. 0)) ones_subtraction 0 =
        (\<lparr>problem_id = ''fallback'', expression = ''1 + 1'', correctAnswer = Num 2,
          userAnswer = [], isCorrect = None, timestamp = 800\<rparr>, 800)"
proof -
  have run: "rejected_run (example_env (\<lambda>k. 0)) ones_subtraction 200 0 = Some 800"
    by (simp add: ones_subtraction_run)
  have "now (example_env (\<lambda>k. 0)) 800 = 800"
    by (simp add: example_env_def)
  with run single_problem_never_fails
    [where E = "example_env (\<lambda>k. 0)" and config = ones_subtraction and k = 0 and k' = 800]
  show ?thesis by simp
qed

subsection \<open>The length of the problem set\<close>

lemma fill_loop_length:
  "int (length (fst (fill_loop E config problems k))) = max (int (length problems)) (quantity config)"
proof (induction E config problems k rule: fill_loop.induct)
  case (1 E config problems k)
  show ?case
  proof (cases "int (length problems) < quantity config")
    case False
    then show ?thesis by (subst fill_loop.simps) simp
  next
    case True
    obtain p k' where g: "generateSingleProblem E config k = (p, k')"
      by (cases "generateSingleProblem E config k")
    from "1.IH" [OF True g [symmetric]] True g show ?thesis
      by (subst fill_loop.simps) (simp add: max_def)
  qed
qed

lemma dedup_loop_bounds:
  "int (length (fst (dedup_loop E config problems seen attempts k)))
      \<le> max (int (length problems)) (quantity config)
   \<and> int (fst (snd (snd (dedup_loop E config problems seen attempts k))))
      \<le> max (int attempts) (quantity config * 50)"
proof (induction E config problems seen attempts k rule: dedup_loop.induct)
  case (1 E config problems seen attempts k)
  show ?case
  proof (cases "int (length problems) < quantity config \<and> int attempts < quantity config * 50")
    case False
    then have "dedup_loop E config problems seen attempts k = (problems, seen, attempts, k)"
      by (subst dedup_loop.simps) auto
    then show ?thesis by simp
  next
    case True
    obtain p k' where g: "generateSingleProblem E config k = (p, k')"
      by (cases "generateSingleProblem E config k")
    show ?thesis
    proof (cases "expression p \<notin> seen")
      case new: True
      have "dedup_loop E config problems seen attempts k =
          dedup_loop E config (problems @ [p]) (insert (expression p) seen) (attempts + 1) k'"
        using True g new by (subst dedup_loop.simps) simp
      with "1.IH"(1) [OF True g [symmetric] new] True show ?thesis
        by (simp add: max_def)
    next
      case old: False
      have "dedup_loop E config problems seen attempts k =
          dedup_loop E config problems seen (attempts + 1) k'"
        using True g old by (subst dedup_loop.simps) simp
      with "1.IH"(2) [OF True g [symmetric] old] True show ?thesis
        by (simp add: max_def)
    qed
  qed
qed

lemma generateProblemSet_length:
  "length (fst (generateProblemSet E config k)) = nat (quantity config)"
proof -
  obtain ps seen a k' where d: "dedup_loop E config [] {} 0 k = (ps, seen, a, k')"
    by (cases "dedup_loop E config [] {} 0 k") auto
  from dedup_loop_bounds [of E config "[]" "{}" 0 k] d
  have le: "int (length ps) \<le> max 0 (quantity config)" by simp
  have eq: "int (length (fst (fill_loop E config ps k'))) = max (int (length ps)) (quantity config)"
    by (rule fill_loop_length)
  have "int (length (fst (fill_loop E config ps k'))) = max 0 (quantity config)"
  proof (cases "0 \<le> quantity config")
    case True
    with le eq show ?thesis by simp
  next
    case False
    with le eq show ?thesis by simp
  qed
  then have "length (fst (fill_loop E config ps k')) = nat (max 0 (quantity config))"
    by linarith
  then show ?thesis
    by (simp add: generateProblemSet_def d)
qed

text \<open>
  C2. \<open>generateProblemSet\<close> terminates (both loops are total functions: the first is
  bounded by its attempts, the second by the missing problems) and returns a list of
  exactly \<open>config.quantity\<close> problems; the first loop makes at most \<open>quantity * 50\<close>
  attempts.
\<close>

theorem problem_set_length:
  "(0 \<le> quantity config \<longrightarrow>
      int (length (fst (generateProblemSet E config k))) = quantity config)
   \<and> length (fst (generateProblemSet E config k)) = nat (quantity config)
   \<and> int (fst (snd (snd (dedup_loop E config [] {} 0 k)))) \<le> max 0 (quantity config * 50)"
proof (intro conjI impI)
  show len: "length (fst (generateProblemSet E config k)) = nat (quantity config)"
    by (rule generateProblemSet_length)
  assume "0 \<le> quantity config"
  with len show "int (length (fst (generateProblemSet E config k))) = quantity config"
    by simp
next
  from dedup_loop_bounds [of E config "[]" "{}" 0 k]
  show "int (fst (snd (snd (dedup_loop E config [] {} 0 k)))) \<le> max 0 (quantity config * 50)"
    by simp
qed

text \<open>C2 for the configuration of section 8 with few expressions (quantity 5) and for
  a quantity of 20.\<close>

theorem problem_set_length_witness:
  "0 \<le> quantity ones_subtraction
   \<and> int (length (fst (generateProblemSet (example_env (\<lambda>k. 0)) ones_subtraction 0))) = 5
   \<and> 0 \<le> quantity easy_addition
   \<and> int (length (fst (generateProblemSet (example_env (\<lambda>k. 0)) easy_addition 0))) = 20"
  using problem_set_length [of ones_subtraction "example_env (\<lambda>k. 0)" 0]
    problem_set_length [of easy_addition "example_env (\<lambda>k. 0)" 0]
  by (simp add: ones_subtraction_def easy_addition_def)

subsection \<open>The constraints on the problems returned\<close>

lemma attempt_accepted:
  assumes "attempt E config k = (Some problem, k')"
  shows "\<exists>numbers ops k1. candidate E config k = (numbers, ops, k1)
     \<and> \<not> rejects config (evaluateExpressionExtended numbers ops)
     \<and> correctAnswer problem = result (evaluateExpressionExtended numbers ops)
     \<and> expression problem = render E numbers ops
     \<and> userAnswer problem = [] \<and> isCorrect problem = None"
proof -
  obtain numbers ops k1 where c: "candidate E config k = (numbers, ops, k1)"
    by (cases "candidate E config k") auto
  with assms show ?thesis
    by (auto simp add: attempt_def split: if_splits)
qed

lemma single_problem_origin:
  assumes "generateSingleProblem E config k = (problem, k')"
  shows "problem = fallback E k' \<or> (\<exists>k0. attempt E config k0 = (Some problem, k'))"
proof -
  from attempts_loop_outcome [OF le0, of E config k] obtain n k1 where
    o: "if 0 + n = (200::nat) then attempts_loop E config 0 k = (fallback E k1, k1)
       else (\<exists>problem k''. attempt E config k1 = (Some problem, k'')
              \<and> attempts_loop E config 0 k = (problem, k''))"
    by blast
  show ?thesis
  proof (cases "0 + n = (200::nat)")
    case True
    with o assms show ?thesis by (auto simp add: generateSingleProblem_def)
  next
    case False
    with o assms show ?thesis by (auto simp add: generateSingleProblem_def)
  qed
qed

lemma not_lt_zero_ge: "\<not> js_lt r (Num 0) \<Longrightarrow> r \<noteq> NaN \<Longrightarrow> js_ge r (Num 0)"
  by (cases r) simp_all

lemma single_problem_constraints:
  "within_constraints config (fst (generateSingleProblem E config k))"
proof -
  obtain problem k' where g: "generateSingleProblem E config k = (problem, k')"
    by (cases "generateSingleProblem E config k")
  from single_problem_origin [OF g] have "within_constraints config problem"
  proof
    assume "problem = fallback E k'"
    then show ?thesis by (simp add: within_constraints_def fallback_def)
  next
    assume "\<exists>k0. attempt E config k0 = (Some problem, k')"
    then obtain k0 where "attempt E config k0 = (Some problem, k')" ..
    from attempt_accepted [OF this] obtain numbers ops k1 where
      acc: "\<not> rejects config (evaluateExpressionExtended numbers ops)"
      and ans: "correctAnswer problem = result (evaluateExpressionExtended numbers ops)"
      by blast
    then show ?thesis
      by (auto simp add: within_constraints_def rejects_def)
  qed
  with g show ?thesis by simp
qed

lemma fill_loop_all:
  "\<forall>k. Q (fst (generateSingleProblem E config k)) \<Longrightarrow> list_all Q problems \<Longrightarrow>
   list_all Q (fst (fill_loop E config problems k))"
proof (induction E config problems k rule: fill_loop.induct)
  case (1 E config problems k)
  show ?case
  proof (cases "int (length problems) < quantity config")
    case False
    then have "fill_loop E config problems k = (problems, k)"
      by (subst fill_loop.simps) simp
    with "1.prems" show ?thesis by simp
  next
    case True
    obtain p k' where g: "generateSingleProblem E config k = (p, k')"
      by (cases "generateSingleProblem E config k")
    from "1.prems"(1) g have "Q p" by (metis fst_conv)
    with "1.prems"(2) have all: "list_all Q (problems @ [p])" by simp
    have "fill_loop E config problems k = fill_loop E config (problems @ [p]) k'"
      using True g by (subst fill_loop.simps) simp
    with "1.IH" [OF True g [symmetric] "1.prems"(1) all] show ?thesis by simp
  qed
qed

lemma dedup_loop_all:
  "\<forall>k. Q (fst (generateSingleProblem E config k)) \<Longrightarrow> list_all Q problems \<Longrightarrow>
   list_all Q (fst (dedup_loop E config problems seen attempts k))"
proof (induction E config problems seen attempts k rule: dedup_loop.induct)
  case (1 E config problems seen attempts k)
  show ?case
  proof (cases "int (length problems) < quantity config \<and> int attempts < quantity config * 50")
    case False
    then have "dedup_loop E config problems seen attempts k = (problems, seen, attempts, k)"
      by (subst dedup_loop.simps) auto
    with "1.prems" show ?thesis by simp
  next
    case True
    obtain p k' where g: "generateSingleProblem E config k = (p, k')"
      by (cases "generateSingleProblem E config k")
    from "1.prems"(1) g have "Q p" by (metis fst_conv)
    with "1.prems"(2) have all: "list_all Q (problems @ [p])" by simp
    show ?thesis
    proof (cases "expression p \<notin> seen")
      case new: True
      have "dedup_loop E config problems seen attempts k =
          dedup_loop E config (problems @ [p]) (insert (expression p) seen) (attempts + 1) k'"
        using True g new by (subst dedup_loop.simps) simp
      with "1.IH"(1) [OF True g [symmetric] new "1.prems"(1) all] show ?thesis by simp
    next
      case old: False
      have "dedup_loop E config problems seen attempts k =
          dedup_loop E config problems seen (attempts + 1) k'"
        using True g old by (subst dedup_loop.simps) simp
      with "1.IH"(2) [OF True g [symmetric] old "1.prems"] show ?thesis by simp
    qed
  qed
qed

lemma problem_set_all:
  assumes "\<forall>k. Q (fst (generateSingleProblem E config k))"
  shows "list_all Q (fst (generateProblemSet E config k))"
proof -
  obtain ps seen a k' where d: "dedup_loop E config [] {} 0 k = (ps, seen, a, k')"
    by (cases "dedup_loop E config [] {} 0 k") auto
  from dedup_loop_all [of Q E config "[]" "{}" 0 k, OF assms] d have "list_all Q ps"
    by simp
  from fill_loop_all [of Q E config ps k', OF assms this] show ?thesis
    by (simp add: generateProblemSet_def d)
qed

subsection \<open>Running the generator on the example inputs\<close>

lemma sample_numbers_numeral:
  "sample_numbers E config (numeral v) k =
     (case sample_numbers E config (pred_numeral v) (Suc k) of
        (numbers, k') \<Rightarrow>
          (js_add
             (js_floor (js_mul (Num (random E k))
                (js_add (js_sub (cfg_max config) (cfg_min config)) (Num 1))))
             (cfg_min config) # numbers, k'))"
  by (simp add: numeral_eq_Suc)

lemma choose_operators_numeral:
  "choose_operators E config baseOp (numeral v) mixedPool k =
     (if mixedOperations config then
        (if length mixedPool > 0 then
           (case choose_operators E config baseOp (pred_numeral v) (butlast mixedPool) k of
              (ops, k') \<Rightarrow> (Some (last mixedPool) # ops, k'))
         else
           (case choose_operators E config baseOp (pred_numeral v) mixedPool (Suc k) of
              (ops, k') \<Rightarrow> (pick_operator E (operators config) k # ops, k')))
      else
        (case choose_operators E config baseOp (pred_numeral v) mixedPool k of
           (ops, k') \<Rightarrow> (baseOp # ops, k')))"
  by (simp add: numeral_eq_Suc)

lemmas generator_defs = attempt_def candidate_def pick_operator_def swap_operands_def
  rejects_def fix_divisions.simps example_env_def sample_numbers_numeral
  choose_operators_numeral digits_of.simps

lemma first_attempt_accepted:
  "attempt E config k = (Some problem, k') \<Longrightarrow>
   generateSingleProblem E config k = (problem, k')"
  unfolding generateSingleProblem_def by (subst attempts_loop.simps) simp

lemma second_attempt_accepted:
  "attempt E config k = (None, k1) \<Longrightarrow> attempt E config k1 = (Some problem, k') \<Longrightarrow>
   generateSingleProblem E config k = (problem, k')"
  unfolding generateSingleProblem_def
  by (subst attempts_loop.simps, simp, subst attempts_loop.simps, simp)

lemma easy_subtraction_first:
  "attempt (example_env subtraction_randoms) easy_subtraction 0 = (None, 4)"
  by (simp add: generator_defs evaluator_defs easy_subtraction_def subtraction_randoms_def)

lemma easy_subtraction_second:
  "attempt (example_env subtraction_randoms) easy_subtraction 4 =
     (Some \<lparr>problem_id = ''4fzyo82mv'', expression = ''9 - 3 - 2'',
        correctAnswer = Num 4, userAnswer = [], isCorrect = None, timestamp = 9\<rparr>, 9)"
  by (simp add: generator_defs evaluator_defs easy_subtraction_def subtraction_randoms_def)

lemma easy_division_candidate:
  "candidate (example_env division_randoms) easy_division 0 = ([Num 8, Num 4], [Some division], 4)"
  by (simp add: generator_defs easy_division_def division_randoms_def js_sub_def)

lemma easy_division_first:
  "attempt (example_env division_randoms) easy_division 0 =
     (Some \<lparr>problem_id = ''4fzyo82mv'', expression = ''8 '' @ getOperatorSymbol division @ '' 4'',
        correctAnswer = Num 2, userAnswer = [], isCorrect = None, timestamp = 5\<rparr>, 5)"
  by (simp add: generator_defs evaluator_defs easy_division_def division_randoms_def)

lemma huge_candidate:
  "candidate (example_env huge_randoms) huge_multiplication 0
   = ([Num (5 * 10 ^ 199), Num (5 * 10 ^ 199), Num 0],
      [Some multiplication, Some multiplication], 4)"
  by (simp add: generator_defs huge_multiplication_def huge_randoms_def js_sub_def
      to_double_range_below)

lemma overflow_times_zero:
  "2 ^ 1100 \<le> a * b \<Longrightarrow>
   evaluateExpressionExtended [Num a, Num b, Num 0] [Some multiplication, Some multiplication]
     = \<lparr>result = NaN, hasNegativeIntermediate = False\<rparr>"
  by (simp add: evaluator_defs to_double_range_above signed_inf_def)

lemma huge_answer:
  "correctAnswer (fst (generateSingleProblem (example_env huge_randoms) huge_multiplication 0))
   = NaN"
proof -
  define a :: rat where "a = 5 * 10 ^ 199"
  have c: "candidate (example_env huge_randoms) huge_multiplication 0
      = ([Num a, Num a, Num 0], [Some multiplication, Some multiplication], 4)"
    by (simp add: huge_candidate a_def)
  have "2 ^ 1100 \<le> a * a" by (simp add: a_def)
  then have ev: "evaluateExpressionExtended [Num a, Num a, Num 0]
      [Some multiplication, Some multiplication]
      = \<lparr>result = NaN, hasNegativeIntermediate = False\<rparr>"
    by (rule overflow_times_zero)
  have flags: "\<not> allowNegative huge_multiplication"
    "\<not> integerDivisionOnly huge_multiplication"
    by (simp_all add: huge_multiplication_def)
  have "\<exists>p. attempt (example_env huge_randoms) huge_multiplication 0 = (Some p, 5)
      \<and> correctAnswer p = NaN"
    by (simp add: attempt_def c ev rejects_def flags)
  then obtain p where "attempt (example_env huge_randoms) huge_multiplication 0 = (Some p, 5)"
    and "correctAnswer p = NaN" by blast
  with first_attempt_accepted [of "example_env huge_randoms" huge_multiplication 0 p 5]
  show ?thesis by simp
qed

subsection \<open>What the generated problems satisfy\<close>

text \<open>
  C4, as the claim states it, fails. With operands between 0 and \<open>10^200\<close>,
  multiplication only and negative results not allowed, the random values
  \<open>huge_randoms\<close> give the candidate \<open>5 * 10^199 * 5 * 10^199 * 0\<close>: the first product
  is too large for a double, so it is plus infinity, and infinity times zero is
  \<open>NaN\<close>. The test of line 120 does not reject \<open>NaN\<close>, and the problem is returned
  with an answer that is not at least 0.
\<close>

theorem overflowing_answer_is_not_a_number:
  "\<not> allowNegative huge_multiplication
   \<and> candidate (example_env huge_randoms) huge_multiplication 0
       = ([Num (5 * 10 ^ 199), Num (5 * 10 ^ 199), Num 0],
          [Some multiplication, Some multiplication], 4)
   \<and> correctAnswer (fst (generateSingleProblem (example_env huge_randoms)
         huge_multiplication 0)) = NaN
   \<and> \<not> js_ge (correctAnswer (fst (generateSingleProblem (example_env huge_randoms)
         huge_multiplication 0))) (Num 0)"
proof -
  have "\<not> allowNegative huge_multiplication"
    by (simp add: huge_multiplication_def)
  then show ?thesis
    by (simp add: huge_answer huge_candidate)
qed

text \<open>
  C4, amended. For every configuration and every random stream, every problem returned
  by \<open>generateSingleProblem\<close> (the fallback included), and so every problem of a
  generated set, has an answer that is not below 0 when negative results are not
  allowed (it is at least 0 unless it is \<open>NaN\<close>, which an evaluation that overflows
  gives) and an integer answer when integer division is required. A problem other than
  the fallback is an accepted candidate, and no negative intermediate was recorded in
  its evaluation when negative results are not allowed.
\<close>

theorem generated_problems_meet_constraints:
  "(generateSingleProblem E config k = (problem, k') \<longrightarrow>
      (\<not> allowNegative config \<longrightarrow>
         \<not> js_lt (correctAnswer problem) (Num 0)
         \<and> (correctAnswer problem \<noteq> NaN \<longrightarrow> js_ge (correctAnswer problem) (Num 0)))
      \<and> (integerDivisionOnly config \<longrightarrow> isInteger (correctAnswer problem))
      \<and> (problem = fallback E k' \<or>
         (\<exists>k0 numbers ops k1. candidate E config k0 = (numbers, ops, k1)
            \<and> \<not> rejects config (evaluateExpressionExtended numbers ops)
            \<and> correctAnswer problem = result (evaluateExpressionExtended numbers ops)
            \<and> (\<not> allowNegative config \<longrightarrow>
                 \<not> hasNegativeIntermediate (evaluateExpressionExtended numbers ops)))))
   \<and> (\<forall>p\<in>set (fst (generateProblemSet E config k)).
        (\<not> allowNegative config \<longrightarrow>
           \<not> js_lt (correctAnswer p) (Num 0)
           \<and> (correctAnswer p \<noteq> NaN \<longrightarrow> js_ge (correctAnswer p) (Num 0)))
        \<and> (integerDivisionOnly config \<longrightarrow> isInteger (correctAnswer p)))"
proof (intro impI conjI)
  have single: "within_constraints config (fst (generateSingleProblem E config j))" for j
    by (rule single_problem_constraints)
  {
    assume g: "generateSingleProblem E config k = (problem, k')"
    from single [of k] g have wc: "within_constraints config problem" by simp
    {
      assume "\<not> allowNegative config"
      with wc show lt: "\<not> js_lt (correctAnswer problem) (Num 0)"
        by (simp add: within_constraints_def)
      assume "correctAnswer problem \<noteq> NaN"
      with lt show "js_ge (correctAnswer problem) (Num 0)"
        by (simp add: not_lt_zero_ge)
    }
    {
      assume "integerDivisionOnly config"
      with wc show "isInteger (correctAnswer problem)"
        by (simp add: within_constraints_def)
    }
    from single_problem_origin [OF g]
    show "problem = fallback E k' \<or>
         (\<exists>k0 numbers ops k1. candidate E config k0 = (numbers, ops, k1)
            \<and> \<not> rejects config (evaluateExpressionExtended numbers ops)
            \<and> correctAnswer problem = result (evaluateExpressionExtended numbers ops)
            \<and> (\<not> allowNegative config \<longrightarrow>
                 \<not> hasNegativeIntermediate (evaluateExpressionExtended numbers ops)))"
    proof
      assume "problem = fallback E k'"
      then show ?thesis by simp
    next
      assume "\<exists>k0. attempt E config k0 = (Some problem, k')"
      then obtain k0 where "attempt E config k0 = (Some problem, k')" ..
      from attempt_accepted [OF this] obtain numbers ops k1 where
        c: "candidate E config k0 = (numbers, ops, k1)"
        and acc: "\<not> rejects config (evaluateExpressionExtended numbers ops)"
        and ans: "correctAnswer problem = result (evaluateExpressionExtended numbers ops)"
        by blast
      from acc have "\<not> allowNegative config \<longrightarrow>
          \<not> hasNegativeIntermediate (evaluateExpressionExtended numbers ops)"
        by (auto simp add: rejects_def)
      with c acc ans show ?thesis by blast
    qed
  }
  from single have "\<forall>j. within_constraints config (fst (generateSingleProblem E config j))"
    by simp
  then have "list_all (within_constraints config) (fst (generateProblemSet E config k))"
    by (rule problem_set_all)
  then show "\<forall>p\<in>set (fst (generateProblemSet E config k)).
        (\<not> allowNegative config \<longrightarrow>
           \<not> js_lt (correctAnswer p) (Num 0)
           \<and> (correctAnswer p \<noteq> NaN \<longrightarrow> js_ge (correctAnswer p) (Num 0)))
        \<and> (integerDivisionOnly config \<longrightarrow> isInteger (correctAnswer p))"
    by (auto simp add: list_all_iff within_constraints_def not_lt_zero_ge)
qed

text \<open>
  The amended C4 with subtraction, where the first candidate \<open>1 - 5 - 2\<close> is rejected
  and the second, \<open>9 - 3 - 2\<close>, is returned with the answer 4; and with division,
  where the fix-up makes the candidate \<open>8 / 4\<close>, returned with the answer 2.
\<close>

theorem generated_problems_meet_constraints_witness:
  "\<not> allowNegative easy_subtraction \<and> integerDivisionOnly easy_subtraction
   \<and> generateSingleProblem (example_env subtraction_randoms) easy_subtraction 0 =
        (\<lparr>problem_id = ''4fzyo82mv'', expression = ''9 - 3 - 2'', correctAnswer = Num 4,
          userAnswer = [], isCorrect = None, timestamp = 9\<rparr>, 9)
   \<and> Num 4 \<noteq> NaN \<and> \<not> js_lt (Num 4) (Num 0) \<and> js_ge (Num 4) (Num 0) \<and> isInteger (Num 4)
   \<and> \<not> allowNegative easy_division \<and> integerDivisionOnly easy_division
   \<and> generateSingleProblem (example_env division_randoms) easy_division 0 =
        (\<lparr>problem_id = ''4fzyo82mv'',
          expression = ''8 '' @ getOperatorSymbol division @ '' 4'', correctAnswer = Num 2,
          userAnswer = [], isCorrect = None, timestamp = 5\<rparr>, 5)
   \<and> Num 2 \<noteq> NaN \<and> \<not> js_lt (Num 2) (Num 0) \<and> js_ge (Num 2) (Num 0) \<and> isInteger (Num 2)"
proof -
  have flags: "\<not> allowNegative easy_subtraction" "integerDivisionOnly easy_subtraction"
    "\<not> allowNegative easy_division" "integerDivisionOnly easy_division"
    by (simp_all add: easy_subtraction_def easy_division_def)
  have g1: "generateSingleProblem (example_env subtraction_randoms) easy_subtraction 0 =
        (\<lparr>problem_id = ''4fzyo82mv'', expression = ''9 - 3 - 2'', correctAnswer = Num 4,
          userAnswer = [], isCorrect = None, timestamp = 9\<rparr>, 9)"
    by (rule second_attempt_accepted [OF easy_subtraction_first easy_subtraction_second])
  have g2: "generateSingleProblem (example_env division_randoms) easy_division 0 =
        (\<lparr>problem_id = ''4fzyo82mv'',
          expression = ''8 '' @ getOperatorSymbol division @ '' 4'', correctAnswer = Num 2,
          userAnswer = [], isCorrect = None, timestamp = 5\<rparr>, 5)"
    by (rule first_attempt_accepted [OF easy_division_first])
  from generated_problems_meet_constraints
    [where config = easy_subtraction and E = "example_env subtraction_randoms" and k = 0
       and problem = "\<lparr>problem_id = ''4fzyo82mv'', expression = ''9 - 3 - 2'',
          correctAnswer = Num 4, userAnswer = [], isCorrect = None, timestamp = 9\<rparr>"
       and k' = 9]
    generated_problems_meet_constraints
    [where config = easy_division and E = "example_env division_randoms" and k = 0
       and problem = "\<lparr>problem_id = ''4fzyo82mv'',
          expression = ''8 '' @ getOperatorSymbol division @ '' 4'', correctAnswer = Num 2,
          userAnswer = [], isCorrect = None, timestamp = 5\<rparr>"
       and k' = 5]
    flags g1 g2
  show ?thesis by simp
qed

subsection \<open>The division fix-up\<close>

text \<open>For two operands and one division slot the fix-up does what it is for: with the
  operands 1 and 4 and the multiplier 2 the candidate is \<open>8 / 4\<close>, and the quotient
  of its slot is the multiplier.\<close>

lemma single_division_exact:
  "candidate (example_env division_randoms) easy_division 0 = ([Num 8, Num 4], [Some division], 4)
   \<and> division_quotients 0 [Num 8, Num 4] [Some division] = [Num 2]"
  by (simp add: easy_division_candidate division_quotients.simps md_value_def)

lemma chained_division_attempt:
  "attempt (example_env chained_division_randoms) hard_division 0 =
     (Some \<lparr>problem_id = ''4fzyo82mv'',
         expression = ''10 '' @ getOperatorSymbol division @ '' 1000 ''
           @ getOperatorSymbol division @ '' 100'',
         correctAnswer = Num 0, userAnswer = [], isCorrect = None, timestamp = 7\<rparr>, 7)"
  by (simp add: generator_defs evaluator_defs hard_division_def chained_division_randoms_def)

text \<open>
  C5 does not hold of the code. With the hard preset, division only and integer
  division required, the random values \<open>chained_division_randoms\<close> give the operands
  10, 10 and 100; the fix-up sets the first operand to \<open>10 * 1\<close> and then overwrites the
  second, the right operand of the first slot, by \<open>100 * 10\<close>. The candidate is
  \<open>10 / 1000 / 100\<close>: its division slots have the quotients \<open>1/100\<close> and \<open>1/10000\<close>,
  and it is accepted with the answer 0, since the rounded result is an integer.
\<close>

theorem chained_division_not_exact:
  "candidate (example_env chained_division_randoms) hard_division 0
     = ([Num 10, Num 1000, Num 100], [Some division, Some division], 6)
   \<and> division_quotients 0 [Num 10, Num 1000, Num 100] [Some division, Some division]
     = [Num (1 / 100), Num (1 / 10000)]
   \<and> \<not> isInteger (Num (1 / 100)) \<and> \<not> isInteger (Num (1 / 10000))
   \<and> generateSingleProblem (example_env chained_division_randoms) hard_division 0 =
       (\<lparr>problem_id = ''4fzyo82mv'',
         expression = ''10 '' @ getOperatorSymbol division @ '' 1000 ''
           @ getOperatorSymbol division @ '' 100'',
         correctAnswer = Num 0, userAnswer = [], isCorrect = None, timestamp = 7\<rparr>, 7)"
proof (intro conjI)
  show "candidate (example_env chained_division_randoms) hard_division 0
     = ([Num 10, Num 1000, Num 100], [Some division, Some division], 6)"
    by (simp add: generator_defs hard_division_def chained_division_randoms_def js_sub_def)
  show "division_quotients 0 [Num 10, Num 1000, Num 100] [Some division, Some division]
     = [Num (1 / 100), Num (1 / 10000)]"
    by (simp add: division_quotients.simps md_value_def)
  show "\<not> isInteger (Num (1 / 100))" by simp
  show "\<not> isInteger (Num (1 / 10000))" by simp
  show "generateSingleProblem (example_env chained_division_randoms) hard_division 0 =
       (\<lparr>problem_id = ''4fzyo82mv'',
         expression = ''10 '' @ getOperatorSymbol division @ '' 1000 ''
           @ getOperatorSymbol division @ '' 100'',
         correctAnswer = Num 0, userAnswer = [], isCorrect = None, timestamp = 7\<rparr>, 7)"
    by (rule first_attempt_accepted [OF chained_division_attempt])
qed


end
